theory Spec2Isabelle
  imports Main "HOL-Library.Char_ord" "HOL-Library.List_Lexorder" "HOL-Library.Multiset"
begin

section \<open>Strings and characters\<close>

text \<open>
  A Python \<open>str\<close> is a sequence of code points. The embedding uses \<open>string\<close>, a list
  of 8-bit characters, read as the code points U+0000 to U+00FF; code points above
  U+00FF are outside the embedding. \<open>ord\<close> is the code point of a character.
\<close>

definition ord :: "char \<Rightarrow> nat" where
  "ord c = of_char c"

definition chr :: "nat \<Rightarrow> char" where
  "chr n = char_of n"

definition in_range :: "nat \<Rightarrow> nat \<Rightarrow> char \<Rightarrow> bool" where
  "in_range lo hi c \<longleftrightarrow> lo \<le> ord c \<and> ord c \<le> hi"

text \<open>
  \<open>str.lower()\<close> on U+0000 to U+00FF: the ASCII capitals A to Z and the Latin-1 capitals
  U+00C0 to U+00DE (the multiplication sign U+00D7 apart) move up by 32; every other
  code point stays.
\<close>

definition lower_char :: "char \<Rightarrow> char" where
  "lower_char c =
     (if in_range 65 90 c \<or> (in_range 192 222 c \<and> ord c \<noteq> 215) then chr (ord c + 32) else c)"

definition lower :: "string \<Rightarrow> string" where
  "lower s = map lower_char s"

text \<open>The character class \<open>[a-z0-9]\<close> of the regular expression in \<open>folder_name_to_id\<close>.\<close>

definition az09 :: "char \<Rightarrow> bool" where
  "az09 c \<longleftrightarrow> in_range 97 122 c \<or> in_range 48 57 c"

text \<open>
  \<open>re.sub(r'[^a-z0-9]+', '-', s)\<close>: scanning from the left, a character outside the class
  starts a match, the match takes every following character outside the class (the
  \<open>+\<close> is greedy), and the whole match is replaced by one \<open>-\<close>.
\<close>

function re_sub_dash :: "string \<Rightarrow> string" where
  "re_sub_dash [] = []"
| "re_sub_dash (c # cs) =
     (if az09 c then c # re_sub_dash cs
      else CHR ''-'' # re_sub_dash (dropWhile (\<lambda>x. \<not> az09 x) cs))"
  by pat_completeness auto
termination
  by (relation "measure length") (auto simp: le_imp_less_Suc length_dropWhile_le)

text \<open>\<open>s.strip(chars)\<close>: drop the characters in \<open>chars\<close> from both ends.\<close>

definition strip_chars :: "(char \<Rightarrow> bool) \<Rightarrow> string \<Rightarrow> string" where
  "strip_chars P s = rev (dropWhile P (rev (dropWhile P s)))"

definition folder_name_to_id :: "string \<Rightarrow> string" where
  "folder_name_to_id folder_name =
     strip_chars (\<lambda>c. c = CHR ''-'') (re_sub_dash (lower folder_name))"

subsection \<open>The id as the specification words it\<close>

text \<open>
  Alphanumeric, in the sense of a URL-safe slug: an ASCII letter or an ASCII digit.
\<close>

definition alphanumeric :: "char \<Rightarrow> bool" where
  "alphanumeric c \<longleftrightarrow> in_range 65 90 c \<or> in_range 97 122 c \<or> in_range 48 57 c"

text \<open>
  The maximal runs of a list under a predicate: each run is a longest stretch of
  neighbours on which the predicate has one value.
\<close>

function runs :: "('a \<Rightarrow> bool) \<Rightarrow> 'a list \<Rightarrow> 'a list list" where
  "runs P [] = []"
| "runs P (x # xs) =
     (x # takeWhile (\<lambda>y. P y = P x) xs) # runs P (dropWhile (\<lambda>y. P y = P x) xs)"
  by pat_completeness auto
termination
  by (relation "measure (\<lambda>(P, xs). length xs)") (auto simp: le_imp_less_Suc length_dropWhile_le)

definition replace_run :: "string \<Rightarrow> string" where
  "replace_run r = (if list_all alphanumeric r then r else ''-'')"

text \<open>
  Stripping the separators at both ends, told apart from the source's \<open>strip\<close>:
  leading separators are dropped from the front, and a separator is trailing when
  nothing but separators follows it.
\<close>

fun drop_leading :: "string \<Rightarrow> string" where
  "drop_leading [] = []"
| "drop_leading (c # cs) = (if c = CHR ''-'' then drop_leading cs else c # cs)"

fun drop_trailing :: "string \<Rightarrow> string" where
  "drop_trailing [] = []"
| "drop_trailing (c # cs) =
     (if c = CHR ''-'' \<and> drop_trailing cs = [] then [] else c # drop_trailing cs)"

definition replaced_runs :: "string \<Rightarrow> string" where
  "replaced_runs D = concat (map replace_run (runs alphanumeric (lower D)))"

definition spec_slug :: "string \<Rightarrow> string" where
  "spec_slug D = drop_trailing (drop_leading (replaced_runs D))"

section \<open>Exceptions and file reads\<close>

text \<open>
  A raised Python exception: its class name and the text \<open>str(e)\<close> that the log lines
  print. A computation that may raise returns \<open>exn + 'a\<close>, with \<open>Inl\<close> for the raise.
\<close>

datatype exn = Exn (exn_class: string) (exn_msg: string)

text \<open>
  What \<open>open(filepath, 'r', encoding='utf-8')\<close> followed by \<open>f.read()\<close> meets:
  no such file, bytes that are not UTF-8, some other error (a directory in the place
  of the file, a permission), or the decoded text of the file.
\<close>

datatype file_read =
    FileNotFound
  | UnicodeDecode
  | ReadRaises exn
  | FileText string

abbreviation CR :: char where "CR \<equiv> CHR 0x0D"
abbreviation LF :: char where "LF \<equiv> CHR 0x0A"
abbreviation backslash :: char where "backslash \<equiv> CHR 0x5C"
abbreviation backtick :: char where "backtick \<equiv> CHR 0x60"

text \<open>
  A file opened in text mode with the default \<open>newline=None\<close> is read with universal
  newlines: \<open>\r\n\<close> and a lone \<open>\r\<close> arrive as \<open>\n\<close>.
\<close>

fun universal_newlines :: "string \<Rightarrow> string" where
  "universal_newlines [] = []"
| "universal_newlines (c # cs) =
     (if c = CR then
        LF # (case cs of [] \<Rightarrow> [] | d # ds \<Rightarrow> if d = LF then universal_newlines ds else universal_newlines cs)
      else c # universal_newlines cs)"

definition read_file_safe :: "file_read \<Rightarrow> exn + string" where
  "read_file_safe f =
     (case f of
        FileNotFound \<Rightarrow> Inr []
      | UnicodeDecode \<Rightarrow> Inr []
      | ReadRaises e \<Rightarrow> Inl e
      | FileText s \<Rightarrow> Inr (universal_newlines s))"

section \<open>Escaping for a template literal\<close>

text \<open>
  \<open>s.replace(old, new)\<close>: the occurrences of \<open>old\<close> are found from the left and do not
  overlap. With an empty \<open>old\<close>, Python puts \<open>new\<close> before every character and at the
  end.
\<close>

function replace :: "string \<Rightarrow> string \<Rightarrow> string \<Rightarrow> string" where
  "replace [] new s = new @ concat (map (\<lambda>c. c # new) s)"
| "replace (a # as) new [] = []"
| "replace (a # as) new (c # cs) =
     (if take (Suc (length as)) (c # cs) = a # as
      then new @ replace (a # as) new (drop (length as) cs)
      else c # replace (a # as) new cs)"
  by pat_completeness auto
termination
  by (relation "measure (\<lambda>(old, new, s). length s)") auto

definition convert_markdown_to_js_string :: "string \<Rightarrow> string" where
  "convert_markdown_to_js_string markdown_content =
     replace ''${'' [backslash, CHR ''$'', CHR ''{'']
       (replace [backtick] [backslash, backtick]
         (replace [backslash] [backslash, backslash] markdown_content))"

subsection \<open>Reading a template literal back\<close>

text \<open>
  The value of a JavaScript template literal without substitutions, as ECMAScript
  defines it: the characters after the opening backtick up to the first backtick that
  is not escaped, with escape sequences replaced, \<open>\r\n\<close> and \<open>\r\<close> read as \<open>\n\<close>,
  and \<open>${\<close> opening a substitution. The result is the value together with the text
  left after the closing backtick.
\<close>

datatype tl_error = Unterminated | Substitution | BadEscape | AboveLatin1

definition hex_digit :: "char \<Rightarrow> nat option" where
  "hex_digit c =
     (if in_range 48 57 c then Some (ord c - 48)
      else if in_range 97 102 c then Some (ord c - 87)
      else if in_range 65 70 c then Some (ord c - 55)
      else None)"

fun hex_value :: "nat \<Rightarrow> string \<Rightarrow> nat option" where
  "hex_value acc [] = Some acc"
| "hex_value acc (c # cs) =
     (case hex_digit c of None \<Rightarrow> None | Some d \<Rightarrow> hex_value (16 * acc + d) cs)"

definition tl_cons :: "char \<Rightarrow> tl_error + string \<times> string \<Rightarrow> tl_error + string \<times> string" where
  "tl_cons c r = (case r of Inl e \<Rightarrow> Inl e | Inr (v, rest) \<Rightarrow> Inr (c # v, rest))"

definition code_point :: "nat option \<Rightarrow> tl_error + string \<times> string \<Rightarrow> tl_error + string \<times> string" where
  "code_point n r =
     (case n of None \<Rightarrow> Inl BadEscape
      | Some k \<Rightarrow> if k < 256 then tl_cons (chr k) r else Inl AboveLatin1)"

function template_chars :: "string \<Rightarrow> tl_error + string \<times> string" where
  "template_chars [] = Inl Unterminated"
| "template_chars (c # cs) =
     (if c = backtick then Inr ([], cs)
      else if c = CHR ''$'' \<and> take 1 cs = ''{'' then Inl Substitution
      else if c = CR then
        tl_cons LF (if take 1 cs = [LF] then template_chars (drop 1 cs) else template_chars cs)
      else if c \<noteq> backslash then tl_cons c (template_chars cs)
      else (case cs of
          [] \<Rightarrow> Inl Unterminated
        | e # r \<Rightarrow>
            if e = CHR ''n'' then tl_cons LF (template_chars r)
            else if e = CHR ''t'' then tl_cons (CHR 0x09) (template_chars r)
            else if e = CHR ''r'' then tl_cons CR (template_chars r)
            else if e = CHR ''b'' then tl_cons (CHR 0x08) (template_chars r)
            else if e = CHR ''f'' then tl_cons (CHR 0x0C) (template_chars r)
            else if e = CHR ''v'' then tl_cons (CHR 0x0B) (template_chars r)
            else if e = LF then template_chars r
            else if e = CR then
              (if take 1 r = [LF] then template_chars (drop 1 r) else template_chars r)
            else if e = CHR ''0'' \<and> \<not> list_ex (in_range 48 57) (take 1 r)
              then tl_cons (CHR 0x00) (template_chars r)
            else if in_range 48 57 e then Inl BadEscape
            else if e = CHR ''x'' then
              (if length r < 2 then Inl BadEscape
               else code_point (hex_value 0 (take 2 r)) (template_chars (drop 2 r)))
            else if e = CHR ''u'' \<and> take 1 r = ''{'' then
              (let ds = takeWhile (\<lambda>d. d \<noteq> CHR ''}'') (drop 1 r)
               in if ds = [] \<or> length ds = length (drop 1 r) then Inl BadEscape
                  else code_point (hex_value 0 ds) (template_chars (drop (Suc (length ds)) (drop 1 r))))
            else if e = CHR ''u'' then
              (if length r < 4 then Inl BadEscape
               else code_point (hex_value 0 (take 4 r)) (template_chars (drop 4 r)))
            else tl_cons e (template_chars r)))"
  by pat_completeness auto
termination
  by (relation "measure length") auto

definition template_literal :: "string \<Rightarrow> tl_error + string \<times> string" where
  "template_literal text =
     (case text of [] \<Rightarrow> Inl Unterminated
      | c # cs \<Rightarrow> if c = backtick then template_chars cs else Inl Unterminated)"

text \<open>
  The escaping, character by character: what the three replacements amount to.
\<close>

fun escape_chars :: "string \<Rightarrow> string" where
  "escape_chars [] = []"
| "escape_chars (c # cs) =
     (if c = backslash then backslash # backslash # escape_chars cs
      else if c = backtick then backslash # backtick # escape_chars cs
      else if c = CHR ''$'' \<and> take 1 cs = ''{'' then backslash # CHR ''$'' # escape_chars cs
      else c # escape_chars cs)"

definition escape_one :: "char \<Rightarrow> string" where
  "escape_one c =
     (if c = backslash then [backslash, backslash]
      else if c = backtick then [backslash, backtick] else [c])"

section \<open>Python values\<close>

text \<open>
  What \<open>json.load\<close> and \<open>yaml.safe_load\<close> return: \<open>None\<close>, booleans, integers,
  strings, lists and dicts. A dict is the list of its items in insertion order, its
  keys strings and distinct. Floats, and the dates, byte strings, sets and non-string
  keys that YAML can also produce, are outside the embedding.
\<close>

datatype pyval =
    PNone
  | PBool bool
  | PInt int
  | PStr string
  | PList "pyval list"
  | PDict "(string \<times> pyval) list"

type_synonym pydict = "(string \<times> pyval) list"

definition exn_bind :: "exn + 'a \<Rightarrow> ('a \<Rightarrow> exn + 'b) \<Rightarrow> exn + 'b" where
  "exn_bind m f = (case m of Inl e \<Rightarrow> Inl e | Inr v \<Rightarrow> f v)"

text \<open>Evaluating a list of computations from the left, up to the first raise.\<close>

fun map_exn :: "('a \<Rightarrow> exn + 'b) \<Rightarrow> 'a list \<Rightarrow> exn + 'b list" where
  "map_exn f [] = Inr []"
| "map_exn f (x # xs) =
     (case f x of Inl e \<Rightarrow> Inl e
      | Inr y \<Rightarrow> (case map_exn f xs of Inl e \<Rightarrow> Inl e | Inr ys \<Rightarrow> Inr (y # ys)))"

text \<open>Truth value of an object, as \<open>if v:\<close> and \<open>and\<close> test it.\<close>

fun py_truthy :: "pyval \<Rightarrow> bool" where
  "py_truthy PNone = False"
| "py_truthy (PBool b) = b"
| "py_truthy (PInt i) = (i \<noteq> 0)"
| "py_truthy (PStr s) = (s \<noteq> [])"
| "py_truthy (PList xs) = (xs \<noteq> [])"
| "py_truthy (PDict kvs) = (kvs \<noteq> [])"

fun type_name :: "pyval \<Rightarrow> string" where
  "type_name PNone = ''NoneType''"
| "type_name (PBool b) = ''bool''"
| "type_name (PInt i) = ''int''"
| "type_name (PStr s) = ''str''"
| "type_name (PList xs) = ''list''"
| "type_name (PDict kvs) = ''dict''"

text \<open>A name between single quotes, as Python's messages show it.\<close>

definition quoted :: "string \<Rightarrow> string" where
  "quoted s = [CHR 0x27] @ s @ [CHR 0x27]"

fun is_substring :: "string \<Rightarrow> string \<Rightarrow> bool" where
  "is_substring sub [] = (sub = [])"
| "is_substring sub (c # cs) = (take (length sub) (c # cs) = sub \<or> is_substring sub cs)"

text \<open>
  \<open>key in v\<close> for a string \<open>key\<close>: a key of a dict, an element of a list, a substring
  of a string; the other values are not containers.
\<close>

fun py_contains :: "string \<Rightarrow> pyval \<Rightarrow> exn + bool" where
  "py_contains k (PDict kvs) = Inr (map_of kvs k \<noteq> None)"
| "py_contains k (PList xs) = Inr (List.member xs (PStr k))"
| "py_contains k (PStr s) = Inr (is_substring k s)"
| "py_contains k v =
     Inl (Exn ''TypeError'' (''argument of type '' @ quoted (type_name v) @ '' is not iterable''))"

text \<open>\<open>v[key]\<close> for a string \<open>key\<close>.\<close>

fun py_getitem :: "pyval \<Rightarrow> string \<Rightarrow> exn + pyval" where
  "py_getitem (PDict kvs) k =
     (case map_of kvs k of
        Some x \<Rightarrow> Inr x
      | None \<Rightarrow> Inl (Exn ''KeyError'' (quoted k)))"
| "py_getitem (PStr s) k = Inl (Exn ''TypeError'' (''string indices must be integers, not '' @ quoted ''str''))"
| "py_getitem (PList xs) k =
     Inl (Exn ''TypeError'' ''list indices must be integers or slices, not str'')"
| "py_getitem v k =
     Inl (Exn ''TypeError'' (quoted (type_name v) @ '' object is not subscriptable''))"

text \<open>\<open>v.get(key, dflt)\<close>, with \<open>dflt\<close> the default: only a dict has the method.\<close>

fun py_get :: "pyval \<Rightarrow> string \<Rightarrow> pyval \<Rightarrow> exn + pyval" where
  "py_get (PDict kvs) k dflt = Inr (case map_of kvs k of Some x \<Rightarrow> x | None \<Rightarrow> dflt)"
| "py_get v k dflt =
     Inl (Exn ''AttributeError''
       (quoted (type_name v) @ '' object has no attribute '' @ quoted ''get''))"

text \<open>
  \<open>for x in v\<close>: the elements of a list, the keys of a dict, the characters of a
  string.
\<close>

fun py_iter :: "pyval \<Rightarrow> exn + pyval list" where
  "py_iter (PList xs) = Inr xs"
| "py_iter (PDict kvs) = Inr (map (\<lambda>kv. PStr (fst kv)) kvs)"
| "py_iter (PStr s) = Inr (map (\<lambda>c. PStr [c]) s)"
| "py_iter v =
     Inl (Exn ''TypeError'' (quoted (type_name v) @ '' object is not iterable''))"

text \<open>
  \<open>str.strip()\<close> without argument removes white space from both ends; in U+0000 to
  U+00FF the white space characters are U+0009 to U+000D, U+001C to U+0020, U+0085
  and U+00A0. \<open>s.split('\n')\<close> cuts at every line feed and always returns at least
  one piece.
\<close>

definition is_space :: "char \<Rightarrow> bool" where
  "is_space c \<longleftrightarrow> in_range 9 13 c \<or> in_range 28 32 c \<or> ord c = 133 \<or> ord c = 160"

definition strip :: "string \<Rightarrow> string" where
  "strip s = strip_chars is_space s"

fun split :: "char \<Rightarrow> string \<Rightarrow> string list" where
  "split sep [] = [[]]"
| "split sep (c # cs) =
     (if c = sep then [] # split sep cs
      else (case split sep cs of [] \<Rightarrow> [[c]] | w # ws \<Rightarrow> (c # w) # ws))"

text \<open>\<open>v.strip().split('\n')\<close>: only a string has the method \<open>strip\<close>.\<close>

fun strip_split :: "pyval \<Rightarrow> exn + string list" where
  "strip_split (PStr s) = Inr (split LF (strip s))"
| "strip_split v =
     Inl (Exn ''AttributeError''
       (quoted (type_name v) @ '' object has no attribute '' @ quoted ''strip''))"

section \<open>Converting one exercise directory\<close>

text \<open>
  The files of an exercise directory, each as what reading it gives. For
  \<open>config.json\<close>: absent, \<open>json.load\<close> (or opening the file) raises, or the parsed
  document. For \<open>evaluation/suite.yaml\<close>: absent, \<open>yaml.safe_load\<close> raises a
  \<open>yaml.YAMLError\<close> with the given text, opening or reading raises something else,
  or the parsed document.
\<close>

datatype config_file = ConfigAbsent | ConfigRaises exn | ConfigData pyval

datatype suite_file = SuiteAbsent | SuiteYAMLError string | SuiteRaises exn | SuiteData pyval

record exercise_dir =
  folder_name :: string
  config_json :: config_file
  description_md :: file_read
  solution_txt :: file_read
  suite_yaml :: suite_file

text \<open>
  The record that \<open>convert_exercise\<close> returns. A test case stays a dict, since the
  summary asks for its keys. The title is whatever the configuration holds.
\<close>

record exercise =
  exercise_id :: string
  title :: pyval
  description :: string
  solution :: string
  testCases :: "pydict list"

definition load_config :: "config_file \<Rightarrow> exn + pyval" where
  "load_config c =
     (case c of ConfigAbsent \<Rightarrow> Inr (PDict []) | ConfigRaises e \<Rightarrow> Inl e | ConfigData v \<Rightarrow> Inr v)"

text \<open>\<open>config.get('description', {}).get('names', {}).get('en', folder_name)\<close>\<close>

definition get_title :: "pyval \<Rightarrow> string \<Rightarrow> exn + pyval" where
  "get_title config name =
     exn_bind (py_get config ''description'' (PDict [])) (\<lambda>d.
     exn_bind (py_get d ''names'' (PDict [])) (\<lambda>n.
     py_get n ''en'' (PStr name)))"

text \<open>
  The input lines of one test case:
  \<open>if 'stdin' in test_case and test_case['stdin']: input_lines = test_case['stdin'].strip().split('\n')\<close>,
  and the empty list otherwise.
\<close>

definition input_lines :: "pyval \<Rightarrow> exn + string list" where
  "input_lines test_case =
     exn_bind (py_contains ''stdin'' test_case) (\<lambda>present.
       if \<not> present then Inr []
       else exn_bind (py_getitem test_case ''stdin'') (\<lambda>stdin.
         if py_truthy stdin then strip_split stdin else Inr []))"

definition convert_test_case :: "pyval \<Rightarrow> exn + pydict" where
  "convert_test_case test_case =
     exn_bind (input_lines test_case) (\<lambda>lines.
     exn_bind (py_get test_case ''arguments'' (PList [])) (\<lambda>arguments.
     exn_bind (py_get test_case ''stdout'' (PStr [])) (\<lambda>stdout.
     exn_bind (py_get test_case ''exit_code'' (PInt 0)) (\<lambda>exit_code.
       Inr [(''arguments'', arguments),
            (''expectedOutput'', stdout),
            (''expectedExitCode'', exit_code),
            (''input'', PList (map PStr lines))]))))"

definition convert_tab :: "pyval \<Rightarrow> exn + pydict list" where
  "convert_tab tab =
     exn_bind (py_contains ''testcases'' tab) (\<lambda>present.
       if \<not> present then Inr []
       else exn_bind (py_getitem tab ''testcases'') (\<lambda>cases.
            exn_bind (py_iter cases) (map_exn convert_test_case)))"

text \<open>\<open>if suite_data and isinstance(suite_data, list): for tab in suite_data: ...\<close>\<close>

fun isinstance_list :: "pyval \<Rightarrow> bool" where
  "isinstance_list (PList xs) = True"
| "isinstance_list v = False"

definition convert_suite_data :: "pyval \<Rightarrow> exn + pydict list" where
  "convert_suite_data suite_data =
     (if py_truthy suite_data \<and> isinstance_list suite_data
      then exn_bind (py_iter suite_data) (\<lambda>tabs.
           exn_bind (map_exn convert_tab tabs) (\<lambda>test_cases. Inr (concat test_cases)))
      else Inr [])"

text \<open>
  Standard output, as \<open>print\<close> meets it: for each line, \<open>None\<close> when the line is
  written and \<open>Some e\<close> when writing it raises \<open>e\<close> (an encoding that lacks a
  character of the line, a closed stream). A print that raises writes nothing.
\<close>

type_synonym stdout = "string \<Rightarrow> exn option"

text \<open>The standard output that takes every line.\<close>

definition accepting :: stdout where
  "accepting line = None"

text \<open>
  Reading the suite: what is printed, and the test cases or the exception that leaves
  the \<open>try\<close>. Only a \<open>yaml.YAMLError\<close> is caught; an exception of the warning's
  \<open>print\<close> leaves the handler.
\<close>

definition yaml_warning :: "string \<Rightarrow> string \<Rightarrow> string" where
  "yaml_warning name msg = ''Warning: Could not parse YAML for '' @ name @ '': '' @ msg"

definition read_suite :: "stdout \<Rightarrow> string \<Rightarrow> suite_file \<Rightarrow> string list \<times> (exn + pydict list)" where
  "read_suite out name suite =
     (case suite of
        SuiteAbsent \<Rightarrow> ([], Inr [])
      | SuiteYAMLError msg \<Rightarrow>
          (case out (yaml_warning name msg) of
             None \<Rightarrow> ([yaml_warning name msg], Inr [])
           | Some e \<Rightarrow> ([], Inl e))
      | SuiteRaises e \<Rightarrow> ([], Inl e)
      | SuiteData suite_data \<Rightarrow> ([], convert_suite_data suite_data))"

text \<open>
  The part of \<open>convert_exercise\<close> that comes before the suite: the configuration and
  the title, then the description and the solution. Nothing is printed there.
\<close>

definition before_suite :: "exercise_dir \<Rightarrow> exn + pyval \<times> string \<times> string" where
  "before_suite d =
     exn_bind (load_config (config_json d)) (\<lambda>config.
     exn_bind (get_title config (folder_name d)) (\<lambda>t.
     exn_bind (read_file_safe (description_md d)) (\<lambda>desc.
     exn_bind (read_file_safe (solution_txt d)) (\<lambda>sol.
       Inr (t, desc, sol)))))"

text \<open>
  \<open>convert_exercise\<close>, on a standard output: the lines it prints, and the record
  it returns or the exception it raises.
\<close>

definition convert_exercise :: "stdout \<Rightarrow> exercise_dir \<Rightarrow> string list \<times> (exn + exercise)" where
  "convert_exercise out d =
     (case before_suite d of
        Inl e \<Rightarrow> ([], Inl e)
      | Inr (t, desc, sol) \<Rightarrow>
          (case read_suite out (folder_name d) (suite_yaml d) of
             (printed, Inl e) \<Rightarrow> (printed, Inl e)
           | (printed, Inr test_cases) \<Rightarrow>
               (printed, Inr \<lparr>exercise_id = folder_name_to_id (folder_name d), title = t,
                          description = desc, solution = sol, testCases = test_cases\<rparr>)))"

subsection \<open>The input lines as the specification words them\<close>

text \<open>
  Trimming trailing white space only, and an empty result when nothing is left after
  trimming.
\<close>

definition rstrip :: "string \<Rightarrow> string" where
  "rstrip s = rev (dropWhile is_space (rev s))"

definition spec_input :: "string option \<Rightarrow> string list" where
  "spec_input stdin =
     (case stdin of
        None \<Rightarrow> []
      | Some s \<Rightarrow> if rstrip s = [] then [] else split LF (rstrip s))"

text \<open>A test case entry of the suite that has only a \<open>stdin\<close> field, or none.\<close>

definition entry_with_stdin :: "string option \<Rightarrow> pyval" where
  "entry_with_stdin stdin =
     (case stdin of None \<Rightarrow> PDict [] | Some s \<Rightarrow> PDict [(''stdin'', PStr s)])"

definition join :: "string \<Rightarrow> string list \<Rightarrow> string" where
  "join sep xs = (case xs of [] \<Rightarrow> [] | y # ys \<Rightarrow> y @ concat (map (\<lambda>x. sep @ x) ys))"

section \<open>Text of values\<close>

function show_nat :: "nat \<Rightarrow> string" where
  "show_nat n = (if n < 10 then [chr (48 + n)] else show_nat (n div 10) @ [chr (48 + n mod 10)])"
  by pat_completeness auto
termination
  by (relation "measure id") auto

declare show_nat.simps [simp del]

definition show_int :: "int \<Rightarrow> string" where
  "show_int i = (if i < 0 then CHR ''-'' # show_nat (nat (- i)) else show_nat (nat i))"

definition hex_char :: "nat \<Rightarrow> char" where
  "hex_char d = (if d < 10 then chr (48 + d) else chr (87 + d))"

definition hex2 :: "nat \<Rightarrow> string" where
  "hex2 n = [hex_char (n div 16 mod 16), hex_char (n mod 16)]"

text \<open>
  \<open>json.dumps\<close> with its defaults (\<open>ensure_ascii=True\<close>, separators \<open>', '\<close> and
  \<open>': '\<close>): in a string, the quote and the backslash get a backslash, the usual
  control characters their letter, and every other character outside U+0020 to
  U+007E the form \<open>\u00XX\<close>.
\<close>

definition json_char :: "char \<Rightarrow> string" where
  "json_char c =
     (if c = CHR 0x22 then [backslash, CHR 0x22]
      else if c = backslash then [backslash, backslash]
      else if c = LF then [backslash, CHR ''n'']
      else if c = CR then [backslash, CHR ''r'']
      else if c = CHR 0x09 then [backslash, CHR ''t'']
      else if c = CHR 0x08 then [backslash, CHR ''b'']
      else if c = CHR 0x0C then [backslash, CHR ''f'']
      else if in_range 32 126 c then [c]
      else [backslash, CHR ''u'', CHR ''0'', CHR ''0''] @ hex2 (ord c))"

definition json_str :: "string \<Rightarrow> string" where
  "json_str s = [CHR 0x22] @ concat (map json_char s) @ [CHR 0x22]"

fun json_dumps :: "pyval \<Rightarrow> string" where
  "json_dumps PNone = ''null''"
| "json_dumps (PBool b) = (if b then ''true'' else ''false'')"
| "json_dumps (PInt i) = show_int i"
| "json_dumps (PStr s) = json_str s"
| "json_dumps (PList xs) = ''['' @ join '', '' (map json_dumps xs) @ '']''"
| "json_dumps (PDict kvs) =
     ''{'' @ join '', '' (map (\<lambda>kv. json_str (fst kv) @ '': '' @ json_dumps (snd kv)) kvs) @ ''}''"

text \<open>
  \<open>repr\<close> of a string: between single quotes, or between double quotes when the
  string holds a single quote and no double quote; the quote in use and the backslash
  get a backslash, tab, line feed and carriage return their letter, and the
  characters that are not printable (below U+0020, U+007F to U+00A0, U+00AD) the form
  \<open>\xXX\<close>.
\<close>

definition repr_char :: "char \<Rightarrow> char \<Rightarrow> string" where
  "repr_char q c =
     (if c = q \<or> c = backslash then [backslash, c]
      else if c = CHR 0x09 then [backslash, CHR ''t'']
      else if c = LF then [backslash, CHR ''n'']
      else if c = CR then [backslash, CHR ''r'']
      else if ord c < 32 \<or> in_range 127 160 c \<or> ord c = 173
        then [backslash, CHR ''x''] @ hex2 (ord c)
      else [c])"

definition repr_str :: "string \<Rightarrow> string" where
  "repr_str s =
     (let q = (if List.member s (CHR 0x27) \<and> \<not> List.member s (CHR 0x22) then CHR 0x22 else CHR 0x27)
      in [q] @ concat (map (repr_char q) s) @ [q])"

fun py_repr :: "pyval \<Rightarrow> string" where
  "py_repr PNone = ''None''"
| "py_repr (PBool b) = (if b then ''True'' else ''False'')"
| "py_repr (PInt i) = show_int i"
| "py_repr (PStr s) = repr_str s"
| "py_repr (PList xs) = ''['' @ join '', '' (map py_repr xs) @ '']''"
| "py_repr (PDict kvs) =
     ''{'' @ join '', '' (map (\<lambda>kv. repr_str (fst kv) @ '': '' @ py_repr (snd kv)) kvs) @ ''}''"

text \<open>\<open>str(v)\<close>, which an f-string puts in the place of \<open>{v}\<close>.\<close>

definition py_str :: "pyval \<Rightarrow> string" where
  "py_str v = (case v of PStr s \<Rightarrow> s | _ \<Rightarrow> py_repr v)"

section \<open>Comparing and sorting titles\<close>

text \<open>
  \<open>a == b\<close>: a boolean counts as the integer 0 or 1, lists are equal element by
  element, dicts when they have the same keys with equal values, in any order.
\<close>

fun py_eq :: "pyval \<Rightarrow> pyval \<Rightarrow> bool" where
  "py_eq PNone PNone = True"
| "py_eq (PBool a) (PBool b) = (a = b)"
| "py_eq (PBool a) (PInt j) = ((if a then 1 else 0) = j)"
| "py_eq (PInt i) (PBool b) = (i = (if b then 1 else 0))"
| "py_eq (PInt i) (PInt j) = (i = j)"
| "py_eq (PStr s) (PStr t) = (s = t)"
| "py_eq (PList []) (PList []) = True"
| "py_eq (PList (x # xs)) (PList (y # ys)) = (py_eq x y \<and> py_eq (PList xs) (PList ys))"
| "py_eq (PDict []) (PDict kws) = (kws = [])"
| "py_eq (PDict (kv # kvs)) (PDict kws) =
     ((case map_of kws (fst kv) of None \<Rightarrow> False | Some w \<Rightarrow> py_eq (snd kv) w) \<and>
      py_eq (PDict kvs) (PDict (filter (\<lambda>kw. fst kw \<noteq> fst kv) kws)))"
| "py_eq a b = False"

text \<open>
  \<open>a < b\<close>: strings compare by code points, integers and booleans as numbers, lists
  by their first unequal elements (a proper prefix is smaller). Values without an
  order raise \<open>TypeError\<close>, whose text names the types of the two values at which the
  comparison stopped.
\<close>

definition lt_error :: "pyval \<Rightarrow> pyval \<Rightarrow> exn" where
  "lt_error a b =
     Exn ''TypeError''
       ([CHR 0x27, CHR ''<'', CHR 0x27] @ '' not supported between instances of '' @
        quoted (type_name a) @ '' and '' @ quoted (type_name b))"

fun py_lt :: "pyval \<Rightarrow> pyval \<Rightarrow> exn + bool" where
  "py_lt (PStr s) (PStr t) = Inr (s < t)"
| "py_lt (PBool a) (PBool b) = Inr (\<not> a \<and> b)"
| "py_lt (PBool a) (PInt j) = Inr ((if a then 1 else 0) < j)"
| "py_lt (PInt i) (PBool b) = Inr (i < (if b then 1 else 0))"
| "py_lt (PInt i) (PInt j) = Inr (i < j)"
| "py_lt (PList []) (PList ys) = Inr (ys \<noteq> [])"
| "py_lt (PList (x # xs)) (PList []) = Inr False"
| "py_lt (PList (x # xs)) (PList (y # ys)) =
     (if py_eq x y then py_lt (PList xs) (PList ys) else py_lt x y)"
| "py_lt a b = Inl (lt_error a b)"

text \<open>
  The exception of the sort, if any: the keys are taken in list order, and the first
  key that has no order with a key before it raises, compared with the nearest such
  key before it (\<open>seen\<close> holds the keys already passed, the nearest first). Python
  raises for the same lists of keys; when several pairs of keys have no order, which
  pair its message names depends on the order of its comparisons, which the embedding
  does not follow.
\<close>

fun first_failure :: "pyval list \<Rightarrow> pyval list \<Rightarrow> exn option" where
  "first_failure seen [] = None"
| "first_failure seen (k # ks) =
     (case filter (\<lambda>p. isl (py_lt k p)) seen of
        p # _ \<Rightarrow> (case py_lt k p of Inl e \<Rightarrow> Some e | Inr b \<Rightarrow> None)
      | [] \<Rightarrow> first_failure (k # seen) ks)"

text \<open>
  \<open>exercises.sort(key=lambda x: x['title'])\<close>. The sort is stable and compares the keys
  with \<open><\<close> alone: an element goes behind those whose key is not greater. With fewer
  than two elements nothing is compared.
\<close>

fun insort_title :: "exercise \<Rightarrow> exercise list \<Rightarrow> exercise list" where
  "insort_title x [] = [x]"
| "insort_title x (y # ys) =
     (if py_lt (title y) (title x) = Inr True then y # insort_title x ys else x # y # ys)"

definition sort_by_title :: "exercise list \<Rightarrow> exn + exercise list" where
  "sort_by_title exercises =
     (if length exercises < 2 then Inr exercises
      else case first_failure [] (map title exercises) of
        Some e \<Rightarrow> Inl e
      | None \<Rightarrow> Inr (foldr insort_title exercises []))"

text \<open>The title of a record whose title is a string, for stating the order.\<close>

definition title_str :: "exercise \<Rightarrow> string" where
  "title_str e = (case title e of PStr s \<Rightarrow> s | _ \<Rightarrow> [])"

definition str_titled :: "exercise \<Rightarrow> bool" where
  "str_titled e = (case title e of PStr s \<Rightarrow> True | _ \<Rightarrow> False)"

section \<open>Scanning the base directory\<close>

text \<open>
  An entry of \<open>os.listdir(base_dir)\<close>: a plain file, or a directory with what the
  converter would find in it. A directory counts as an exercise when it holds
  \<open>config.json\<close>.
\<close>

datatype entry = File string | Dir exercise_dir

definition converted_line :: "exercise \<Rightarrow> string" where
  "converted_line ex =
     ''Converted: '' @ py_str (title ex) @ '' ('' @ show_nat (length (testCases ex)) @
     '' test cases)''"

definition error_line :: "string \<Rightarrow> exn \<Rightarrow> string" where
  "error_line item e = ''Error converting '' @ item @ '': '' @ exn_msg e"

text \<open>
  The outcome of the loop, or of a part of it: the lines printed, and the list
  \<open>exercises\<close> gathered, or the exception that left the loop. \<open>then_scan\<close> puts what
  one entry printed and appended before the outcome of the entries after it.
\<close>

type_synonym scanned = "string list \<times> (exn + exercise list)"

definition then_scan :: "string list \<Rightarrow> exercise list \<Rightarrow> scanned \<Rightarrow> scanned" where
  "then_scan printed appended rest =
     (printed @ fst rest,
      case snd rest of Inl e \<Rightarrow> Inl e | Inr exercises \<Rightarrow> Inr (appended @ exercises))"

text \<open>
  The loop over the entries. Inside the \<open>try\<close> the record is appended before the
  \<open>Converted:\<close> line is printed, so when that print raises the record stays and the
  handler prints the error line. An exception of \<open>convert_exercise\<close> is caught and
  printed with the name of the entry, nothing is appended, and the loop goes on. An
  exception of the handler's own \<open>print\<close> leaves the loop.
\<close>

fun scan :: "stdout \<Rightarrow> entry list \<Rightarrow> scanned" where
  "scan out [] = ([], Inr [])"
| "scan out (File name # items) = scan out items"
| "scan out (Dir d # items) =
     (if config_json d = ConfigAbsent then scan out items
      else
        (case convert_exercise out d of
           (printed, Inr exercise) \<Rightarrow>
             (case out (converted_line exercise) of
                None \<Rightarrow>
                  then_scan (printed @ [converted_line exercise]) [exercise] (scan out items)
              | Some e \<Rightarrow>
                  (case out (error_line (folder_name d) e) of
                     None \<Rightarrow>
                       then_scan (printed @ [error_line (folder_name d) e]) [exercise]
                         (scan out items)
                   | Some e' \<Rightarrow> (printed, Inl e')))
         | (printed, Inl e) \<Rightarrow>
             (case out (error_line (folder_name d) e) of
                None \<Rightarrow> then_scan (printed @ [error_line (folder_name d) e]) [] (scan out items)
              | Some e' \<Rightarrow> (printed, Inl e'))))"

section \<open>Emitting the data file\<close>

definition dict_get :: "pydict \<Rightarrow> string \<Rightarrow> pyval" where
  "dict_get d k = (case map_of d k of Some v \<Rightarrow> v | None \<Rightarrow> PNone)"

text \<open>
  The literal of one test case. The part up to the exit code, then the \<open>input\<close> pair
  under \<open>if test_case.get('input')\<close>, then the closing lines.
\<close>

definition test_case_head :: "pydict \<Rightarrow> exn + string" where
  "test_case_head test_case =
     exn_bind (py_getitem (PDict test_case) ''arguments'') (\<lambda>arguments.
     exn_bind (py_getitem (PDict test_case) ''expectedOutput'') (\<lambda>expectedOutput.
     exn_bind (py_getitem (PDict test_case) ''expectedExitCode'') (\<lambda>expectedExitCode.
       Inr (''            {'' @ [LF] @
            ''                arguments: '' @ json_dumps arguments @ '','' @ [LF] @
            ''                expectedOutput: '' @ json_dumps expectedOutput @ '','' @ [LF] @
            ''                expectedExitCode: '' @ py_str expectedExitCode))))"

definition input_pair :: "pyval \<Rightarrow> string" where
  "input_pair v = '','' @ [LF] @ ''                input: '' @ json_dumps v"

definition test_case_tail :: string where
  "test_case_tail = [LF] @ ''            },'' @ [LF]"

definition emit_test_case :: "pydict \<Rightarrow> exn + string" where
  "emit_test_case test_case =
     exn_bind (test_case_head test_case) (\<lambda>head.
       if py_truthy (dict_get test_case ''input'')
       then exn_bind (py_getitem (PDict test_case) ''input'') (\<lambda>v.
              Inr (head @ input_pair v @ test_case_tail))
       else Inr (head @ test_case_tail))"

text \<open>
  The literal of the exercise at position \<open>i\<close> of \<open>n\<close>; a comma follows every
  exercise but the last.
\<close>

definition emit_exercise :: "nat \<Rightarrow> nat \<Rightarrow> exercise \<Rightarrow> exn + string" where
  "emit_exercise n i exercise =
     exn_bind (map_exn emit_test_case (testCases exercise)) (\<lambda>cases.
       Inr (''    {'' @ [LF] @
            ''        id: '' @ [CHR 0x22] @ exercise_id exercise @ [CHR 0x22] @ '','' @ [LF] @
            ''        title: '' @ [CHR 0x22] @ py_str (title exercise) @ [CHR 0x22] @ '','' @ [LF] @
            ''        description: '' @ [backtick] @
               convert_markdown_to_js_string (description exercise) @ [backtick] @ '','' @ [LF] @
            ''        solution: '' @ [backtick] @
               convert_markdown_to_js_string (solution exercise) @ [backtick] @ '','' @ [LF] @
            ''        testCases: ['' @ [LF] @
            concat cases @
            ''        ]'' @ [LF] @
            ''    }'' @
            (if int i < int n - 1 then '','' else []) @ [LF]))"

definition js_content :: "exercise list \<Rightarrow> exn + string" where
  "js_content exercises =
     exn_bind
       (map_exn (\<lambda>(i, exercise). emit_exercise (length exercises) i exercise)
          (zip [0 ..< length exercises] exercises))
       (\<lambda>literals.
          Inr (''// Exercise data converted from Dodona format'' @ [LF] @
               ''const exercises = ['' @ [LF] @ concat literals @ ''];''))"

text \<open>
  \<open>generate_exercises_js\<close>: the printed lines, the text written to
  \<open>exercises-data.js\<close> if the run came that far, and the list returned or the
  exception that ends the run. Listing the base directory and writing the file are
  taken to succeed.
\<close>

definition generated_line :: "exercise list \<Rightarrow> string" where
  "generated_line exercises =
     [LF] @ ''Generated exercises-data.js with '' @ show_nat (length exercises) @ '' exercises''"

definition generate_exercises_js ::
  "stdout \<Rightarrow> entry list \<Rightarrow> string list \<times> string option \<times> (exn + exercise list)" where
  "generate_exercises_js out items =
     (case scan out items of
        (printed, Inl e) \<Rightarrow> (printed, None, Inl e)
      | (printed, Inr gathered) \<Rightarrow>
          (case sort_by_title gathered of
             Inl e \<Rightarrow> (printed, None, Inl e)
           | Inr exercises \<Rightarrow>
               (case js_content exercises of
                  Inl e \<Rightarrow> (printed, None, Inl e)
                | Inr text \<Rightarrow>
                    (case out (generated_line exercises) of
                       None \<Rightarrow> (printed @ [generated_line exercises], Some text, Inr exercises)
                     | Some e \<Rightarrow> (printed, Some text, Inl e)))))"

section \<open>The summary\<close>

text \<open>\<open>has_input = any('input' in tc for tc in exercise['testCases'])\<close>\<close>

definition has_input :: "exercise \<Rightarrow> bool" where
  "has_input exercise = list_ex (\<lambda>tc. map_of tc ''input'' \<noteq> None) (testCases exercise)"

definition summary_line :: "exercise \<Rightarrow> string" where
  "summary_line exercise =
     ''- '' @ py_str (title exercise) @ '': '' @ show_nat (length (testCases exercise)) @
     '' test cases'' @ (if has_input exercise then '' (with input)'' else [])"

text \<open>Printing lines one after the other, up to the first print that raises.\<close>

fun print_all :: "stdout \<Rightarrow> string list \<Rightarrow> string list \<times> exn option" where
  "print_all out [] = ([], None)"
| "print_all out (line # lines) =
     (case out line of
        Some e \<Rightarrow> ([], Some e)
      | None \<Rightarrow> (line # fst (print_all out lines), snd (print_all out lines)))"

definition main :: "stdout \<Rightarrow> entry list \<Rightarrow> string list \<times> string option \<times> exn option" where
  "main out items =
     (case generate_exercises_js out items of
        (printed, written, Inl e) \<Rightarrow> (printed, written, Some e)
      | (printed, written, Inr exercises) \<Rightarrow>
          (printed @ fst (print_all out (([LF] @ ''Summary:'') # map summary_line exercises)),
           written,
           snd (print_all out (([LF] @ ''Summary:'') # map summary_line exercises))))"

text \<open>
  Whether some test case of the exercise carries input lines, which is what the
  summary is said to report.
\<close>

definition carries_input :: "exercise \<Rightarrow> bool" where
  "carries_input exercise =
     list_ex (\<lambda>tc. case map_of tc ''input'' of Some (PList xs) \<Rightarrow> xs \<noteq> [] | _ \<Rightarrow> False)
       (testCases exercise)"


text \<open>
  Reading an emitted test case literal back: its keys are found on the lines that
  start with sixteen blanks, before the colon.
\<close>

definition literal_keys :: "string \<Rightarrow> string list" where
  "literal_keys text =
     map (\<lambda>l. takeWhile (\<lambda>c. c \<noteq> CHR '':'') (drop 16 l))
       (filter (\<lambda>l. take 16 l = ''                '') (split LF text))"

text \<open>
  The shape of the test cases that \<open>convert_exercise\<close> builds: the four keys in
  order, with a list under \<open>input\<close>.
\<close>

definition built :: "pydict \<Rightarrow> bool" where
  "built tc \<longleftrightarrow>
     map fst tc = [''arguments'', ''expectedOutput'', ''expectedExitCode'', ''input''] \<and>
     isinstance_list (dict_get tc ''input'')"

section \<open>Sample directories\<close>

text \<open>
  A directory with the given name, configuration and suite, and neither description
  nor solution.
\<close>

definition sample_dir :: "string \<Rightarrow> config_file \<Rightarrow> suite_file \<Rightarrow> exercise_dir" where
  "sample_dir name config suite =
     \<lparr>folder_name = name, config_json = config, description_md = FileNotFound,
      solution_txt = FileNotFound, suite_yaml = suite\<rparr>"

definition titled :: "string \<Rightarrow> config_file" where
  "titled t =
     ConfigData (PDict [(''description'', PDict [(''names'', PDict [(''en'', PStr t)])])])"




text \<open>The exercises of an outcome of the loop; none when the loop was left.\<close>

definition exercises_of :: "scanned \<Rightarrow> exercise list" where
  "exercises_of r = (case snd r of Inl e \<Rightarrow> [] | Inr exercises \<Rightarrow> exercises)"

section \<open>Properties of the derived id\<close>

lemma concat_runs: "concat (runs P xs) = xs"
  by (induction P xs rule: runs.induct) simp_all

lemma lower_char_not_upper: "\<not> in_range 65 90 (lower_char c)"
  by (simp add: lower_char_def in_range_def ord_def chr_def)

lemma alphanumeric_lower: "alphanumeric (lower_char c) = az09 (lower_char c)"
  using lower_char_not_upper [of c] by (simp add: alphanumeric_def az09_def)

lemma az09_lower_char: "az09 (lower_char c) = alphanumeric c"
  apply (simp add: lower_char_def in_range_def ord_def chr_def alphanumeric_def az09_def)
  apply auto
  done

lemma re_sub_dash_keep: "\<forall>x\<in>set xs. az09 x \<Longrightarrow> re_sub_dash (xs @ ys) = xs @ re_sub_dash ys"
  by (induction xs) simp_all

lemma re_sub_dash_runs:
  "\<forall>c\<in>set s. alphanumeric c = az09 c \<Longrightarrow>
   re_sub_dash s = concat (map replace_run (runs alphanumeric s))"
proof (induction s rule: length_induct)
  case (1 s)
  show ?case
  proof (cases s)
    case Nil
    then show ?thesis by simp
  next
    case (Cons x xs)
    define tk where "tk = takeWhile (\<lambda>y. alphanumeric y = alphanumeric x) xs"
    define dr where "dr = dropWhile (\<lambda>y. alphanumeric y = alphanumeric x) xs"
    have split: "xs = tk @ dr" by (simp add: tk_def dr_def)
    have agree: "\<forall>c\<in>set xs. alphanumeric c = az09 c" and x: "alphanumeric x = az09 x"
      using "1.prems" Cons by simp_all
    have len: "length dr < length s" using Cons split by simp
    have ag: "\<forall>c\<in>set dr. alphanumeric c = az09 c" using agree split by simp
    have rest: "re_sub_dash dr = concat (map replace_run (runs alphanumeric dr))"
    proof (rule "1.IH" [rule_format, OF len])
      fix c assume "c \<in> set dr"
      with ag show "alphanumeric c = az09 c" by (rule bspec)
    qed
    have runs_eq: "runs alphanumeric s = (x # tk) # runs alphanumeric dr"
      by (simp add: Cons tk_def dr_def)
    have tk_same: "\<forall>y\<in>set tk. alphanumeric y = alphanumeric x"
    proof
      fix y assume "y \<in> set tk"
      then show "alphanumeric y = alphanumeric x"
        unfolding tk_def by (rule set_takeWhileD [THEN conjunct2])
    qed
    show ?thesis
    proof (cases "alphanumeric x")
      case True
      have "list_all alphanumeric (x # tk)"
        using True tk_same by (simp add: list_all_iff)
      then have run: "replace_run (x # tk) = x # tk"
        by (simp add: replace_run_def)
      have keep: "\<forall>y\<in>set tk. az09 y"
        using True tk_same agree split by simp
      have "re_sub_dash s = x # re_sub_dash (tk @ dr)"
        using True x Cons split by simp
      also have "\<dots> = x # tk @ re_sub_dash dr"
        using re_sub_dash_keep [OF keep] by simp
      finally show ?thesis by (simp add: runs_eq run rest)
    next
      case False
      have run: "replace_run (x # tk) = ''-''"
        using False by (simp add: replace_run_def)
      have "dropWhile (\<lambda>y. \<not> az09 y) xs = dr"
        unfolding dr_def
      proof (rule dropWhile_cong [OF refl])
        fix y assume "y \<in> set xs"
        then show "(\<not> az09 y) = (alphanumeric y = alphanumeric x)"
          using agree False by simp
      qed
      then have "re_sub_dash s = CHR ''-'' # re_sub_dash dr"
        using False x Cons by simp
      then show ?thesis by (simp add: runs_eq run rest)
    qed
  qed
qed

lemma strip_chars_Nil: "strip_chars P s = [] \<longleftrightarrow> (\<forall>c\<in>set s. P c)"
proof (cases "dropWhile P s")
  case Nil
  then have "\<forall>c\<in>set s. P c" by (simp add: dropWhile_eq_Nil_conv)
  moreover have "strip_chars P s = []" unfolding strip_chars_def Nil by simp
  ultimately show ?thesis by simp
next
  case (Cons a as)
  then have a: "\<not> P a" using hd_dropWhile [of P s] by auto
  have "\<not> (\<forall>c\<in>set s. P c)"
    using Cons by (auto simp: dropWhile_eq_Nil_conv [symmetric])
  moreover have "strip_chars P s \<noteq> []"
    unfolding strip_chars_def Cons using a by (auto simp: dropWhile_eq_Nil_conv)
  ultimately show ?thesis by simp
qed

lemma re_sub_dash_elems: "c \<in> set (re_sub_dash s) \<Longrightarrow> c = CHR ''-'' \<or> (az09 c \<and> c \<in> set s)"
proof (induction s rule: re_sub_dash.induct)
  case 1
  then show ?case by simp
next
  case (2 x xs)
  show ?case
  proof (cases "az09 x")
    case True
    then have "c = x \<or> c \<in> set (re_sub_dash xs)" using "2.prems" by simp
    then show ?thesis using True "2.IH"(1) by auto
  next
    case False
    then have "c = CHR ''-'' \<or> c \<in> set (re_sub_dash (dropWhile (\<lambda>x. \<not> az09 x) xs))"
      using "2.prems" by simp
    then show ?thesis using False "2.IH"(2) set_dropWhileD [of c "\<lambda>x. \<not> az09 x" xs] by auto
  qed
qed

lemma re_sub_dash_az09: "c \<in> set s \<Longrightarrow> az09 c \<Longrightarrow> c \<in> set (re_sub_dash s)"
proof (induction s rule: re_sub_dash.induct)
  case 1 then show ?case by simp
next
  case (2 x xs)
  show ?case
  proof (cases "az09 x")
    case True then show ?thesis using 2 by auto
  next
    case False
    then have "c \<in> set xs" using 2 by auto
    then have "c \<in> set (takeWhile (\<lambda>x. \<not> az09 x) xs) \<or> c \<in> set (dropWhile (\<lambda>x. \<not> az09 x) xs)"
      by (metis Un_iff set_append takeWhile_dropWhile_id)
    then have "c \<in> set (dropWhile (\<lambda>x. \<not> az09 x) xs)"
      using "2.prems" by (auto dest: set_takeWhileD)
    then show ?thesis using False 2 by simp
  qed
qed

lemma dash_not_az09: "\<not> az09 CHR ''-''"
  by (simp add: az09_def in_range_def ord_def)

text \<open>
  Claim C8. The derived id is non-empty exactly when the directory name holds at least
  one alphanumeric character (an ASCII letter or digit).
\<close>

theorem folder_name_to_id_nonempty:
  "folder_name_to_id D \<noteq> [] \<longleftrightarrow> (\<exists>c\<in>set D. alphanumeric c)"
proof -
  have "folder_name_to_id D \<noteq> [] \<longleftrightarrow> (\<exists>c\<in>set (re_sub_dash (lower D)). c \<noteq> CHR ''-'')"
    by (simp add: folder_name_to_id_def strip_chars_Nil)
  also have "\<dots> \<longleftrightarrow> (\<exists>c\<in>set (lower D). az09 c)"
  proof
    assume "\<exists>c\<in>set (re_sub_dash (lower D)). c \<noteq> CHR ''-''"
    then obtain c where "c \<in> set (re_sub_dash (lower D))" and "c \<noteq> CHR ''-''" ..
    then have "az09 c \<and> c \<in> set (lower D)"
      using re_sub_dash_elems [of c "lower D"] by simp
    then show "\<exists>c\<in>set (lower D). az09 c" by (intro bexI [of _ c]) simp_all
  next
    assume "\<exists>c\<in>set (lower D). az09 c"
    then obtain c where c: "c \<in> set (lower D)" "az09 c" ..
    then have "c \<in> set (re_sub_dash (lower D))" by (rule re_sub_dash_az09)
    moreover have "c \<noteq> CHR ''-''" using c(2) dash_not_az09 by (cases "c = CHR ''-''") simp_all
    ultimately show "\<exists>c\<in>set (re_sub_dash (lower D)). c \<noteq> CHR ''-''"
      by (intro bexI [of _ c])
  qed
  also have "\<dots> \<longleftrightarrow> (\<exists>c\<in>set D. alphanumeric c)"
    by (simp add: lower_def az09_lower_char)
  finally show ?thesis .
qed

theorem folder_name_to_id_nonempty_witness:
  "folder_name_to_id ''#a!'' \<noteq> [] \<and> (\<exists>c\<in>set ''#a!''. alphanumeric c) \<and>
   folder_name_to_id ''#?!'' = [] \<and> \<not> (\<exists>c\<in>set ''#?!''. alphanumeric c)"
  using folder_name_to_id_nonempty [of "''#a!''"] folder_name_to_id_nonempty [of "''#?!''"]
  by (simp add: alphanumeric_def in_range_def ord_def)

lemma strip_chars_decomp:
  "\<exists>pre post. s = pre @ strip_chars P s @ post \<and> list_all P pre \<and> list_all P post"
proof -
  define t where "t = dropWhile P s"
  have 1: "s = takeWhile P s @ t" by (simp add: t_def)
  have "rev (dropWhile P (rev t)) @ rev (takeWhile P (rev t)) = t"
    by (simp only: rev_append [symmetric] takeWhile_dropWhile_id rev_rev_ident)
  then have 2: "t = strip_chars P s @ rev (takeWhile P (rev t))"
    unfolding strip_chars_def t_def [symmetric] by (rule sym)
  have 3: "list_all P (takeWhile P s)"
    by (simp add: list_all_iff) (meson set_takeWhileD)
  have 4: "list_all P (rev (takeWhile P (rev t)))"
    by (simp add: list_all_iff) (meson set_takeWhileD)
  have "s = takeWhile P s @ strip_chars P s @ rev (takeWhile P (rev t))"
    using 1 2 by simp
  then show ?thesis using 3 4 by (intro exI conjI)
qed

lemma strip_chars_ends:
  assumes "strip_chars P s \<noteq> []"
  shows "\<not> P (hd (strip_chars P s)) \<and> \<not> P (last (strip_chars P s))"
proof -
  define t where "t = dropWhile P s"
  define u where "u = dropWhile P (rev t)"
  have strip: "strip_chars P s = rev u" by (simp add: strip_chars_def t_def u_def)
  have u: "u \<noteq> []" using assms strip by simp
  have t: "t \<noteq> []" using u by (auto simp: u_def)
  have hu: "\<not> P (hd u)" using u unfolding u_def by (rule hd_dropWhile)
  have ht: "\<not> P (hd t)" using t unfolding t_def by (rule hd_dropWhile)
  have "rev t = takeWhile P (rev t) @ u" by (simp add: u_def)
  then have "last (rev t) = last (takeWhile P (rev t) @ u)" by simp
  then have "last (rev t) = last u" using u by simp
  then have "last u = hd t" using t by (simp add: last_rev)
  then have "hd (rev u) = hd t" using u by (simp add: hd_rev)
  moreover have "last (rev u) = hd u" using u by (simp add: last_rev)
  ultimately show ?thesis using ht hu strip by simp
qed

lemma drop_leading_dropWhile: "drop_leading s = dropWhile (\<lambda>c. c = CHR ''-'') s"
  by (induction s) simp_all

lemma drop_trailing_dropWhile:
  "drop_trailing s = rev (dropWhile (\<lambda>c. c = CHR ''-'') (rev s))"
proof (induction s)
  case Nil
  show ?case by simp
next
  case (Cons c cs)
  let ?P = "\<lambda>c. c = CHR ''-''"
  show ?case
  proof (cases "\<forall>x\<in>set (rev cs). ?P x")
    case True
    then have "dropWhile ?P (rev cs @ [c]) = dropWhile ?P [c]"
      by (simp only: dropWhile_append2)
    moreover have "dropWhile ?P (rev cs) = []" using True by (simp only: dropWhile_eq_Nil_conv)
    ultimately show ?thesis using Cons by simp
  next
    case False
    then obtain x where x: "x \<in> set (rev cs)" "\<not> ?P x" by blast
    then have app: "dropWhile ?P (rev cs @ [c]) = dropWhile ?P (rev cs) @ [c]"
      by (rule dropWhile_append1)
    have "dropWhile ?P (rev cs) \<noteq> []" using False by (simp only: dropWhile_eq_Nil_conv) simp
    then have "drop_trailing cs \<noteq> []" using Cons by simp
    then show ?thesis using Cons app by simp
  qed
qed

lemma strip_chars_drop:
  "strip_chars (\<lambda>c. c = CHR ''-'') s = drop_trailing (drop_leading s)"
  by (simp only: strip_chars_def drop_leading_dropWhile drop_trailing_dropWhile)

lemma re_sub_dash_lower: "re_sub_dash (lower D) = replaced_runs D"
proof -
  have "\<forall>c\<in>set (lower D). alphanumeric c = az09 c"
    by (auto simp: lower_def alphanumeric_lower)
  then show ?thesis unfolding replaced_runs_def by (rule re_sub_dash_runs)
qed

text \<open>
  Claim C1. For every directory name \<open>D\<close> the id computed by \<open>folder_name_to_id\<close> is
  \<open>D\<close> lowercased, with every maximal run of non-alphanumeric characters replaced by
  one \<open>-\<close> and the separators at both ends stripped: it equals the slug of the
  specification, it is the text of replaced runs without a prefix and a suffix made
  of separators only, and it neither starts nor ends with a separator.
  \<open>My Exercise #1\<close> gives \<open>my-exercise-1\<close>, and so does \<open>--My Exercise #1!\<close>.
  Alphanumeric means an ASCII letter or digit, the reading under which the regular
  expression \<open>[^a-z0-9]+\<close> of the source implements the sentence.
\<close>

theorem folder_name_to_id_spec:
  "folder_name_to_id D = spec_slug D \<and>
   (\<exists>pre post. replaced_runs D = pre @ folder_name_to_id D @ post \<and>
      list_all (\<lambda>c. c = CHR ''-'') pre \<and> list_all (\<lambda>c. c = CHR ''-'') post) \<and>
   (folder_name_to_id D \<noteq> [] \<longrightarrow>
      hd (folder_name_to_id D) \<noteq> CHR ''-'' \<and> last (folder_name_to_id D) \<noteq> CHR ''-'') \<and>
   folder_name_to_id ''My Exercise #1'' = ''my-exercise-1'' \<and>
   folder_name_to_id ''--My Exercise #1!'' = ''my-exercise-1''"
proof (intro conjI impI)
  show "folder_name_to_id D = spec_slug D"
    by (simp only: folder_name_to_id_def spec_slug_def re_sub_dash_lower strip_chars_drop)
  show "\<exists>pre post. replaced_runs D = pre @ folder_name_to_id D @ post \<and>
      list_all (\<lambda>c. c = CHR ''-'') pre \<and> list_all (\<lambda>c. c = CHR ''-'') post"
    unfolding folder_name_to_id_def re_sub_dash_lower by (rule strip_chars_decomp)
  show "folder_name_to_id ''My Exercise #1'' = ''my-exercise-1''"
    by code_simp
  show "folder_name_to_id ''--My Exercise #1!'' = ''my-exercise-1''"
    by code_simp
next
  assume "folder_name_to_id D \<noteq> []"
  then show "hd (folder_name_to_id D) \<noteq> CHR ''-''"
    unfolding folder_name_to_id_def by (rule strip_chars_ends [THEN conjunct1])
next
  assume "folder_name_to_id D \<noteq> []"
  then show "last (folder_name_to_id D) \<noteq> CHR ''-''"
    unfolding folder_name_to_id_def by (rule strip_chars_ends [THEN conjunct2])
qed

theorem folder_name_to_id_spec_witness:
  "folder_name_to_id ''#A b!'' = ''a-b'' \<and> spec_slug ''#A b!'' = ''a-b'' \<and>
   folder_name_to_id ''#A b!'' \<noteq> [] \<and>
   hd (folder_name_to_id ''#A b!'') \<noteq> CHR ''-'' \<and> last (folder_name_to_id ''#A b!'') \<noteq> CHR ''-''"
proof -
  have v: "folder_name_to_id ''#A b!'' = ''a-b''" by code_simp
  then have ne: "folder_name_to_id ''#A b!'' \<noteq> []" by simp
  note T = folder_name_to_id_spec [of "''#A b!''"]
  have s: "spec_slug ''#A b!'' = ''a-b''"
    using T [THEN conjunct1, symmetric] v by (rule trans)
  have e: "hd (folder_name_to_id ''#A b!'') \<noteq> CHR ''-'' \<and>
      last (folder_name_to_id ''#A b!'') \<noteq> CHR ''-''"
    using T [THEN conjunct2, THEN conjunct2, THEN conjunct1] ne by (rule mp)
  show ?thesis
    by (intro conjI v s ne e [THEN conjunct1] e [THEN conjunct2])
qed
section \<open>Properties of the escaping\<close>

lemma replace_single:
  "replace [a] new s = concat (map (\<lambda>c. if c = a then new else [c]) s)"
  by (induction s) simp_all

lemma replace_two_stages:
  "replace [backtick] [backslash, backtick] (replace [backslash] [backslash, backslash] s) =
   concat (map escape_one s)"
  unfolding replace_single by (induction s) (simp_all add: escape_one_def)

lemma replace_dollar_brace:
  "replace ''${'' [backslash, CHR ''$'', CHR ''{''] (concat (map escape_one s)) = escape_chars s"
proof (induction s rule: escape_chars.induct)
  case 1
  show ?case by simp
next
  case (2 c cs)
  show ?case
  proof (cases cs)
    case Nil
    then show ?thesis by (simp add: escape_one_def)
  next
    case (Cons d ds)
    then show ?thesis using 2 by (simp add: escape_one_def)
  qed
qed

lemma convert_escape_chars: "convert_markdown_to_js_string s = escape_chars s"
  by (simp add: convert_markdown_to_js_string_def replace_two_stages replace_dollar_brace)

lemma tc_backtick: "template_chars (backtick # r) = Inr ([], r)"
  by simp

lemma tc_escaped_backslash:
  "template_chars (backslash # backslash # r) = tl_cons backslash (template_chars r)"
  by (simp add: in_range_def ord_def)

lemma tc_escaped_backtick:
  "template_chars (backslash # backtick # r) = tl_cons backtick (template_chars r)"
  by (simp add: in_range_def ord_def)

lemma tc_escaped_dollar:
  "template_chars (backslash # CHR ''$'' # r) = tl_cons (CHR ''$'') (template_chars r)"
  by (simp add: in_range_def ord_def)

lemma tc_plain:
  "c \<noteq> backtick \<Longrightarrow> c \<noteq> backslash \<Longrightarrow> c \<noteq> CR \<Longrightarrow>
   \<not> (c = CHR ''$'' \<and> take 1 r = ''{'') \<Longrightarrow>
   template_chars (c # r) = tl_cons c (template_chars r)"
  by (cases "c = CHR ''$''") simp_all

lemma escape_chars_brace:
  "take 1 (escape_chars cs @ backtick # rest) = ''{'' \<longleftrightarrow> take 1 cs = ''{''"
  by (cases cs) simp_all

lemma template_chars_escape:
  "CR \<notin> set s \<Longrightarrow> template_chars (escape_chars s @ backtick # rest) = Inr (s, rest)"
proof (induction s)
  case Nil
  show ?case by (simp del: template_chars.simps add: tc_backtick)
next
  case (Cons c cs)
  then have IH: "template_chars (escape_chars cs @ backtick # rest) = Inr (cs, rest)"
    and c: "c \<noteq> CR" by auto
  consider (bs) "c = backslash" | (bt) "c = backtick"
    | (dollar) "c = CHR ''$''" "take 1 cs = ''{''"
    | (plain) "c \<noteq> backslash" "c \<noteq> backtick" "\<not> (c = CHR ''$'' \<and> take 1 cs = ''{'')"
    by (cases "c = backslash"; cases "c = backtick"; cases "c = CHR ''$'' \<and> take 1 cs = ''{''") simp_all
  then show ?case
  proof cases
    case bs
    then show ?thesis by (simp del: template_chars.simps add: tc_escaped_backslash tc_escaped_backtick tc_escaped_dollar IH tl_cons_def)
  next
    case bt
    then show ?thesis by (simp del: template_chars.simps add: tc_escaped_backslash tc_escaped_backtick tc_escaped_dollar IH tl_cons_def)
  next
    case dollar
    then show ?thesis by (simp del: template_chars.simps add: tc_escaped_backslash tc_escaped_backtick tc_escaped_dollar IH tl_cons_def)
  next
    case plain
    have "\<not> (c = CHR ''$'' \<and> take 1 (escape_chars cs @ backtick # rest) = ''{'')"
      unfolding escape_chars_brace using plain(3) .
    then have "template_chars (c # escape_chars cs @ backtick # rest) =
        tl_cons c (template_chars (escape_chars cs @ backtick # rest))"
      using plain c by (intro tc_plain)
    then show ?thesis using plain
      by (cases "c = CHR ''$''") (simp_all del: template_chars.simps add: IH tl_cons_def)
  qed
qed

lemma universal_newlines_no_CR: "CR \<notin> set (universal_newlines s)"
  by (induction s rule: universal_newlines.induct) (auto split: list.splits)

lemma carriage_return_not_preserved:
  "template_literal (backtick # convert_markdown_to_js_string [CR] @ [backtick]) = Inr ([LF], [])"
  by (simp add: convert_markdown_to_js_string_def template_literal_def tl_cons_def)

text \<open>
  Claim C2. A description or solution is what \<open>read_file_safe\<close> returned. For every
  such string \<open>s\<close>, with any backslashes, backticks and \<open>${\<close> in it, the escaping
  replaces backslashes first, then backticks, then \<open>${\<close>, and the emitted text
  between backticks, read as a template literal, has the value \<open>s\<close> and ends at the
  backtick the emitter wrote. (A text read from a file holds no carriage return; a
  template literal would read one as a line feed.)
\<close>

theorem escape_roundtrip:
  assumes "read_file_safe f = Inr s"
  shows "convert_markdown_to_js_string s =
           replace ''${'' [backslash, CHR ''$'', CHR ''{'']
             (replace [backtick] [backslash, backtick]
               (replace [backslash] [backslash, backslash] s)) \<and>
         template_literal (backtick # convert_markdown_to_js_string s @ backtick # rest) =
           Inr (s, rest)"
proof -
  have "CR \<notin> set s"
  proof (cases f)
    case (FileText t)
    then have "s = universal_newlines t" using assms by (simp add: read_file_safe_def)
    then show ?thesis by (simp only: universal_newlines_no_CR not_False_eq_True)
  qed (use assms in \<open>auto simp: read_file_safe_def\<close>)
  then have "template_chars (escape_chars s @ backtick # rest) = Inr (s, rest)"
    by (rule template_chars_escape)
  then show ?thesis
    by (simp add: template_literal_def convert_escape_chars)
       (simp add: convert_markdown_to_js_string_def [symmetric] convert_escape_chars)
qed

theorem escape_roundtrip_witness:
  "read_file_safe (FileText (''a`${x}$'' @ [backslash, CR, LF])) = Inr (''a`${x}$'' @ [backslash, LF]) \<and>
   template_literal (backtick # convert_markdown_to_js_string (''a`${x}$'' @ [backslash, LF]) @ [backtick]) =
     Inr (''a`${x}$'' @ [backslash, LF], [])"
proof -
  have r: "read_file_safe (FileText (''a`${x}$'' @ [backslash, CR, LF])) =
      Inr (''a`${x}$'' @ [backslash, LF])"
    by (simp add: read_file_safe_def)
  show ?thesis
    by (rule conjI [OF r escape_roundtrip [OF r, of "[]", THEN conjunct2]])
qed
section \<open>The input lines of a test case\<close>

lemma split_join: "join [sep] (split sep s) = s"
proof (induction s)
  case Nil
  show ?case by (simp add: join_def)
next
  case (Cons c cs)
  then show ?case by (cases "split sep cs") (auto simp: join_def)
qed

lemma split_nonempty: "split sep s \<noteq> []"
  by (induction s) (auto split: list.splits)

lemma split_no_sep: "l \<in> set (split sep s) \<Longrightarrow> sep \<notin> set l"
proof (induction s arbitrary: l)
  case Nil
  then show ?case by simp
next
  case (Cons c cs)
  show ?case
  proof (cases "c = sep")
    case True
    then show ?thesis using Cons by auto
  next
    case False
    obtain w ws where w: "split sep cs = w # ws"
      using split_nonempty [of sep cs] by (cases "split sep cs") auto
    then have "l = c # w \<or> l \<in> set ws" using Cons.prems False by simp
    then show ?thesis using Cons.IH [of w] Cons.IH [of l] w False by auto
  qed
qed

lemma input_lines_dict:
  "input_lines (PDict kvs) =
     (case map_of kvs ''stdin'' of
        None \<Rightarrow> Inr []
      | Some v \<Rightarrow> if py_truthy v then strip_split v else Inr [])"
  by (simp add: input_lines_def exn_bind_def split: option.splits)

text \<open>
  Claim C3, as stated, fails. The source calls \<open>strip()\<close>, which trims both ends, and
  tests \<open>stdin\<close> for emptiness before trimming: a leading blank is lost where the
  claim keeps it, and a \<open>stdin\<close> of white space alone gives one empty line where the
  claim gives no line.
\<close>

theorem input_lines_spec_counterexample:
  "input_lines (entry_with_stdin (Some '' a'')) = Inr [''a''] \<and>
   spec_input (Some '' a'') = ['' a''] \<and>
   input_lines (entry_with_stdin (Some '' '')) = Inr [[]] \<and>
   spec_input (Some '' '') = []"
  by (simp add: input_lines_dict entry_with_stdin_def spec_input_def rstrip_def strip_def
      strip_chars_def is_space_def in_range_def ord_def)

text \<open>
  Claim C3, amended. For a test case entry whose \<open>stdin\<close> is absent or the empty string
  the input is the empty sequence. For a \<open>stdin\<close> that is a non-empty string the input
  is the string with the white space at both ends trimmed, split at the line feeds:
  at least one line, no line holds a line feed, the lines joined by line feeds give
  the trimmed string back, and the trimmed string is \<open>stdin\<close> without a prefix and a
  suffix of white space, itself neither starting nor ending with white space. The
  \<open>stdin\<close> \<open>a\nb\n\<close> gives \<open>["a", "b"]\<close>.
\<close>

theorem input_lines_strip_split:
  "(map_of kvs ''stdin'' = None \<longrightarrow> input_lines (PDict kvs) = Inr []) \<and>
   (map_of kvs ''stdin'' = Some (PStr []) \<longrightarrow> input_lines (PDict kvs) = Inr []) \<and>
   (s \<noteq> [] \<and> map_of kvs ''stdin'' = Some (PStr s) \<longrightarrow>
      input_lines (PDict kvs) = Inr (split LF (strip s)) \<and>
      split LF (strip s) \<noteq> [] \<and>
      join [LF] (split LF (strip s)) = strip s \<and>
      (\<forall>l\<in>set (split LF (strip s)). LF \<notin> set l) \<and>
      (\<exists>pre post. s = pre @ strip s @ post \<and> list_all is_space pre \<and> list_all is_space post) \<and>
      (strip s \<noteq> [] \<longrightarrow> \<not> is_space (hd (strip s)) \<and> \<not> is_space (last (strip s)))) \<and>
   input_lines (PDict [(''stdin'', PStr (''a'' @ [LF] @ ''b'' @ [LF]))]) = Inr [''a'', ''b'']"
proof (intro conjI impI)
  assume "map_of kvs ''stdin'' = None"
  then show "input_lines (PDict kvs) = Inr []" by (simp add: input_lines_dict)
next
  assume "map_of kvs ''stdin'' = Some (PStr [])"
  then show "input_lines (PDict kvs) = Inr []" by (simp add: input_lines_dict)
next
  assume "s \<noteq> [] \<and> map_of kvs ''stdin'' = Some (PStr s)"
  then show "input_lines (PDict kvs) = Inr (split LF (strip s))"
    by (simp add: input_lines_dict)
next
  show "split LF (strip s) \<noteq> []" by (rule split_nonempty)
next
  show "join [LF] (split LF (strip s)) = strip s" by (rule split_join)
next
  show "\<forall>l\<in>set (split LF (strip s)). LF \<notin> set l"
    using split_no_sep by (intro ballI)
next
  show "\<exists>pre post. s = pre @ strip s @ post \<and> list_all is_space pre \<and> list_all is_space post"
    unfolding strip_def by (rule strip_chars_decomp)
next
  assume "strip s \<noteq> []"
  then show "\<not> is_space (hd (strip s))"
    unfolding strip_def by (rule strip_chars_ends [THEN conjunct1])
next
  assume "strip s \<noteq> []"
  then show "\<not> is_space (last (strip s))"
    unfolding strip_def by (rule strip_chars_ends [THEN conjunct2])
next
  show "input_lines (PDict [(''stdin'', PStr (''a'' @ [LF] @ ''b'' @ [LF]))]) = Inr [''a'', ''b'']"
    by (simp add: input_lines_dict strip_def strip_chars_def is_space_def in_range_def ord_def)
qed

theorem input_lines_strip_split_witness:
  "map_of [(''stdin'', PStr ('' a '' @ [LF] @ ''b'' @ [LF]))] ''stdin'' =
     Some (PStr ('' a '' @ [LF] @ ''b'' @ [LF])) \<and>
   input_lines (PDict [(''stdin'', PStr ('' a '' @ [LF] @ ''b'' @ [LF]))]) = Inr [''a '', ''b''] \<and>
   map_of [(''stdout'', PStr ''x'')] ''stdin'' = None \<and>
   input_lines (PDict [(''stdout'', PStr ''x'')]) = Inr []"
  using input_lines_strip_split [of "[(''stdin'', PStr ('' a '' @ [LF] @ ''b'' @ [LF]))]" "'' a '' @ [LF] @ ''b'' @ [LF]"]
    input_lines_strip_split [of "[(''stdout'', PStr ''x'')]" "[]"]
  by (simp add: strip_def strip_chars_def is_space_def in_range_def ord_def)
section \<open>The batch loop\<close>


lemma then_scan_Nil: "then_scan [] [] r = r"
  by (cases r) (simp add: then_scan_def split: sum.splits)

text \<open>One part of the loop after the other: an exception of the first part ends it.\<close>

lemma scan_append:
  "scan out (xs @ ys) =
     (case scan out xs of
        (printed, Inl e) \<Rightarrow> (printed, Inl e)
      | (printed, Inr gathered) \<Rightarrow> then_scan printed gathered (scan out ys))"
proof (induction xs)
  case Nil
  show ?case by (simp add: then_scan_Nil)
next
  case (Cons x items)
  show ?case
  proof (cases x)
    case (File name)
    then show ?thesis using Cons by simp
  next
    case (Dir d)
    show ?thesis
    proof (cases "config_json d = ConfigAbsent")
      case True
      then show ?thesis using Cons Dir by simp
    next
      case False
      obtain p r where s: "scan out items = (p, r)" by (cases "scan out items")
      have IH: "scan out (items @ ys) =
          (case r of Inl e \<Rightarrow> (p, Inl e) | Inr gathered \<Rightarrow> then_scan p gathered (scan out ys))"
        using Cons s by simp
      have step: "then_scan q a (scan out (items @ ys)) =
          (case then_scan q a (p, r) of
             (printed, Inl e) \<Rightarrow> (printed, Inl e)
           | (printed, Inr gathered) \<Rightarrow> then_scan printed gathered (scan out ys))" for q a
        unfolding IH by (cases r) (simp_all add: then_scan_def split: sum.splits prod.splits)
      show ?thesis
        using False unfolding Dir
        by (simp add: s [symmetric] step split: prod.splits sum.splits option.splits)
    qed
  qed
qed

lemma scan_Dir_Inr:
  "config_json d \<noteq> ConfigAbsent \<Longrightarrow> convert_exercise out d = (printed, Inr ex) \<Longrightarrow>
   out (converted_line ex) = None \<Longrightarrow>
   scan out (Dir d # after) = then_scan (printed @ [converted_line ex]) [ex] (scan out after)"
  by simp

lemma scan_Dir_Inl:
  "config_json d \<noteq> ConfigAbsent \<Longrightarrow> convert_exercise out d = (printed, Inl e) \<Longrightarrow>
   out (error_line (folder_name d) e) = None \<Longrightarrow>
   scan out (Dir d # after) = then_scan (printed @ [error_line (folder_name d) e]) [] (scan out after)"
  by simp

lemma scan_total_stdout:
  assumes "\<And>line. out line = None"
  shows "\<exists>g. snd (scan out items) = Inr g"
proof (induction items)
  case Nil
  show ?case by simp
next
  case (Cons x items)
  then obtain g where g: "snd (scan out items) = Inr g" by blast
  show ?case
  proof (cases x)
    case (File name)
    then show ?thesis using g by simp
  next
    case (Dir d)
    have ts: "snd (then_scan p a (scan out items)) = Inr (a @ g)" for p a
      using g by (simp add: then_scan_def)
    show ?thesis
    proof (cases "config_json d = ConfigAbsent")
      case True
      then show ?thesis using g Dir by simp
    next
      case False
      obtain printed r where c: "convert_exercise out d = (printed, r)"
        by (cases "convert_exercise out d")
      show ?thesis
      proof (cases r)
        case (Inl e)
        have "scan out (Dir d # items) =
            then_scan (printed @ [error_line (folder_name d) e]) [] (scan out items)"
          using False c [unfolded Inl] assms by (rule scan_Dir_Inl)
        then show ?thesis unfolding Dir by (simp only: ts) blast
      next
        case (Inr ex)
        have "scan out (Dir d # items) =
            then_scan (printed @ [converted_line ex]) [ex] (scan out items)"
          using False c [unfolded Inr] assms by (rule scan_Dir_Inr)
        then show ?thesis unfolding Dir by (simp only: ts) blast
      qed
    qed
  qed
qed

lemma scan_accepting: "\<exists>g. snd (scan accepting items) = Inr g"
  by (rule scan_total_stdout) (simp add: accepting_def)

lemma scan_accepting_gathered: "scan accepting items = (fst (scan accepting items), Inr (exercises_of (scan accepting items)))"
proof -
  obtain g where "snd (scan accepting items) = Inr g" using scan_accepting by blast
  then show ?thesis by (cases "scan accepting items") (simp add: exercises_of_def)
qed



section \<open>Failures while converting\<close>




text \<open>
  Claim C10. When the suite file parses and the document is not a list (a mapping, a
  string, \<open>null\<close>, a number), the exercise is converted with no test cases and
  nothing is printed by the conversion, on any standard output: no warning. On a
  standard output that takes every line the batch loop prints the \<open>Converted:\<close> line
  and appends the exercise between those of the entries before and after it.
\<close>

theorem non_list_suite_silent:
  assumes "suite_yaml d = SuiteData v"
    and "\<not> isinstance_list v"
    and "before_suite d = Inr (t, desc, sol)"
    and "config_json d \<noteq> ConfigAbsent"
  shows "\<exists>ex. convert_exercise out d = ([], Inr ex) \<and>
           exercise_id ex = folder_name_to_id (folder_name d) \<and> title ex = t \<and>
           description ex = desc \<and> solution ex = sol \<and> testCases ex = [] \<and>
           scan accepting (before @ Dir d # after) =
             (fst (scan accepting before) @ [converted_line ex] @ fst (scan accepting after),
              Inr (exercises_of (scan accepting before) @ ex #
                   exercises_of (scan accepting after))) \<and>
           (out (converted_line ex) = None \<longrightarrow>
              scan out (Dir d # after) = then_scan [converted_line ex] [ex] (scan out after))"
proof -
  let ?ex = "\<lparr>exercise_id = folder_name_to_id (folder_name d), title = t,
              description = desc, solution = sol, testCases = []\<rparr>"
  have c: "convert_exercise out' d = ([], Inr ?ex)" for out'
    using assms(1,2,3) by (simp add: convert_exercise_def read_suite_def convert_suite_data_def)
  have one: "scan out' (Dir d # after) = then_scan [converted_line ?ex] [?ex] (scan out' after)"
    if "out' (converted_line ?ex) = None" for out'
    using scan_Dir_Inr [of d out' "[]" ?ex after, OF assms(4) c that] by simp
  have acc: "accepting (converted_line ?ex) = None" by (simp add: accepting_def)
  have "scan accepting (before @ Dir d # after) =
      then_scan (fst (scan accepting before)) (exercises_of (scan accepting before))
        (scan accepting (Dir d # after))"
    by (subst scan_append, subst scan_accepting_gathered [of before]) (simp del: scan.simps)
  also have "\<dots> = then_scan (fst (scan accepting before)) (exercises_of (scan accepting before))
        (then_scan [converted_line ?ex] [?ex]
           (fst (scan accepting after), Inr (exercises_of (scan accepting after))))"
    using one [of accepting, OF acc] scan_accepting_gathered [of after] by (simp del: scan.simps)
  finally have all: "scan accepting (before @ Dir d # after) =
      (fst (scan accepting before) @ [converted_line ?ex] @ fst (scan accepting after),
       Inr (exercises_of (scan accepting before) @ ?ex # exercises_of (scan accepting after)))"
    by (simp add: then_scan_def)
  show ?thesis using c [of out] all one [of out] by (intro exI [of _ ?ex]) simp
qed




theorem non_list_suite_silent_witness:
  "suite_yaml (sample_dir ''beta'' (titled ''Beta'') (SuiteData (PDict [(''testcases'', PList [PDict []])]))) =
     SuiteData (PDict [(''testcases'', PList [PDict []])]) \<and>
   \<not> isinstance_list (PDict [(''testcases'', PList [PDict []])]) \<and>
   before_suite (sample_dir ''beta'' (titled ''Beta'') (SuiteData (PDict [(''testcases'', PList [PDict []])]))) =
     Inr (PStr ''Beta'', [], []) \<and>
   config_json (sample_dir ''beta'' (titled ''Beta'') (SuiteData (PDict [(''testcases'', PList [PDict []])]))) \<noteq> ConfigAbsent \<and>
   (\<exists>ex. convert_exercise accepting (sample_dir ''beta'' (titled ''Beta'') (SuiteData (PDict [(''testcases'', PList [PDict []])]))) =
           ([], Inr ex) \<and> testCases ex = [])"
proof -
  let ?v = "PDict [(''testcases'', PList [PDict []])]"
  let ?d = "sample_dir ''beta'' (titled ''Beta'') (SuiteData ?v)"
  have h1: "suite_yaml ?d = SuiteData ?v" by (simp add: sample_dir_def)
  have h2: "\<not> isinstance_list ?v" by simp
  have h3: "before_suite ?d = Inr (PStr ''Beta'', [], [])" by code_simp
  have h4: "config_json ?d \<noteq> ConfigAbsent" by (simp add: sample_dir_def titled_def)
  from non_list_suite_silent [of ?d ?v "PStr ''Beta''" "[]" "[]" accepting "[]" "[]", OF h1 h2 h3 h4]
  obtain ex where "convert_exercise accepting ?d = ([], Inr ex)" and "testCases ex = []"
    by blast
  then have "\<exists>ex. convert_exercise accepting ?d = ([], Inr ex) \<and> testCases ex = []" by blast
  then show ?thesis using h1 h2 h3 h4 by blast
qed

section \<open>The emitted text and the built test cases\<close>

lemma ord_chr: "ord (chr n) = n mod 256"
  by (simp add: ord_def chr_def)

lemma ord_LF: "ord LF = 10"
  by (simp add: ord_def)

lemma chr_not_LF: "n mod 256 \<noteq> 10 \<Longrightarrow> chr n \<noteq> LF"
  using ord_chr [of n] ord_LF by auto

lemma digit_not_LF: "d < 10 \<Longrightarrow> chr (48 + d) \<noteq> LF"
  by (rule chr_not_LF) simp

lemma hex_char_not_LF: "d < 16 \<Longrightarrow> hex_char d \<noteq> LF"
  unfolding hex_char_def by (auto intro!: chr_not_LF)

lemma hex2_no_LF: "LF \<notin> set (hex2 n)"
proof -
  have "hex_char (n div 16 mod 16) \<noteq> LF" "hex_char (n mod 16) \<noteq> LF"
    by (rule hex_char_not_LF, simp)+
  then show ?thesis by (auto simp: hex2_def)
qed

lemma json_char_no_LF: "LF \<notin> set (json_char c)"
proof (cases "in_range 32 126 c")
  case True
  then have "c \<noteq> LF" by (auto simp: in_range_def ord_def)
  then show ?thesis using hex2_no_LF [of "ord c"] by (simp add: json_char_def)
next
  case False
  then show ?thesis using hex2_no_LF [of "ord c"] by (simp add: json_char_def)
qed

lemma json_str_no_LF: "LF \<notin> set (json_str s)"
  using json_char_no_LF by (auto simp: json_str_def)

lemma show_nat_no_LF: "LF \<notin> set (show_nat n)"
proof (induction n rule: show_nat.induct)
  case (1 n)
  show ?case
  proof (cases "n < 10")
    case True
    then have "show_nat n = [chr (48 + n)]" by (subst show_nat.simps) simp
    then show ?thesis using digit_not_LF [OF True] by simp
  next
    case False
    then have "show_nat n = show_nat (n div 10) @ [chr (48 + n mod 10)]"
      by (subst show_nat.simps) simp
    moreover have "chr (48 + n mod 10) \<noteq> LF" by (rule digit_not_LF) simp
    ultimately show ?thesis using 1 False by simp
  qed
qed

lemma show_int_no_LF: "LF \<notin> set (show_int i)"
  using show_nat_no_LF by (simp add: show_int_def)

lemma set_join: "c \<in> set (join sep xs) \<Longrightarrow> c \<in> set sep \<or> (\<exists>x\<in>set xs. c \<in> set x)"
  by (cases xs) (auto simp: join_def split: if_splits)

lemma json_dumps_no_LF: "LF \<notin> set (json_dumps v)"
proof (induction v rule: json_dumps.induct)
  case (5 xs)
  have "LF \<notin> set (join '', '' (map json_dumps xs))"
  proof
    assume "LF \<in> set (join '', '' (map json_dumps xs))"
    then have "LF \<in> set '', '' \<or> (\<exists>x\<in>set (map json_dumps xs). LF \<in> set x)"
      by (rule set_join)
    then show False using 5 by auto
  qed
  then show ?case by simp
next
  case (6 kvs)
  have "LF \<notin> set (join '', '' (map (\<lambda>kv. json_str (fst kv) @ '': '' @ json_dumps (snd kv)) kvs))"
  proof
    assume "LF \<in> set (join '', '' (map (\<lambda>kv. json_str (fst kv) @ '': '' @ json_dumps (snd kv)) kvs))"
    then have "LF \<in> set '', '' \<or>
        (\<exists>x\<in>set (map (\<lambda>kv. json_str (fst kv) @ '': '' @ json_dumps (snd kv)) kvs). LF \<in> set x)"
      by (rule set_join)
    then show False using 6 json_str_no_LF by auto
  qed
  then show ?case by simp
qed (simp_all add: json_str_no_LF show_int_no_LF)

lemma split_no_sep_single: "sep \<notin> set a \<Longrightarrow> split sep a = [a]"
  by (induction a) auto

lemma split_at_sep: "sep \<notin> set a \<Longrightarrow> split sep (a @ sep # b) = a # split sep b"
  by (induction a) auto


lemma map_exn_all:
  assumes "map_exn f xs = Inr ys" and "\<And>x y. f x = Inr y \<Longrightarrow> P y"
  shows "list_all P ys"
  using assms(1)
proof (induction xs arbitrary: ys)
  case Nil
  then show ?case by simp
next
  case (Cons x xs)
  then obtain y zs where y: "f x = Inr y" and zs: "map_exn f xs = Inr zs" and ys: "ys = y # zs"
    by (auto split: sum.splits)
  have "P y" using y by (rule assms(2))
  moreover have "list_all P zs" using zs by (rule Cons.IH)
  ultimately show ?case using ys by simp
qed

lemma map_exn_total:
  assumes "\<And>x. x \<in> set xs \<Longrightarrow> \<exists>y. f x = Inr y"
  shows "\<exists>ys. map_exn f xs = Inr ys"
  using assms
proof (induction xs)
  case Nil
  show ?case by simp
next
  case (Cons x xs)
  obtain y where y: "f x = Inr y" using Cons.prems [of x] by auto
  obtain zs where zs: "map_exn f xs = Inr zs" using Cons by auto
  show ?case using y zs by simp
qed

lemma convert_test_case_shape:
  assumes "convert_test_case entry = Inr tc"
  shows "\<exists>a out code ls. input_lines entry = Inr ls \<and>
           tc = [(''arguments'', a), (''expectedOutput'', out), (''expectedExitCode'', code),
                 (''input'', PList (map PStr ls))]"
  using assms
  by (auto simp: convert_test_case_def exn_bind_def split: sum.splits)

lemma convert_test_case_built: "convert_test_case entry = Inr tc \<Longrightarrow> built tc"
  by (drule convert_test_case_shape) (auto simp: built_def dict_get_def)

lemma convert_tab_built: "convert_tab tab = Inr tcs \<Longrightarrow> list_all built tcs"
proof -
  assume a: "convert_tab tab = Inr tcs"
  show ?thesis
  proof (cases "tcs = []")
    case True
    then show ?thesis by simp
  next
    case False
    then obtain xs where "map_exn convert_test_case xs = Inr tcs"
      using a by (auto simp: convert_tab_def exn_bind_def split: sum.splits if_splits)
    then show ?thesis by (rule map_exn_all) (rule convert_test_case_built)
  qed
qed

lemma convert_suite_data_built: "convert_suite_data v = Inr tcs \<Longrightarrow> list_all built tcs"
proof -
  assume a: "convert_suite_data v = Inr tcs"
  show ?thesis
  proof (cases "tcs = []")
    case True
    then show ?thesis by simp
  next
    case False
    then obtain tabs parts where m: "map_exn convert_tab tabs = Inr parts" and c: "tcs = concat parts"
      using a by (auto simp: convert_suite_data_def exn_bind_def split: sum.splits if_splits)
    have "list_all (list_all built) parts"
      using m by (rule map_exn_all) (rule convert_tab_built)
    then show ?thesis unfolding c by (induction parts) simp_all
  qed
qed

lemma convert_exercise_built:
  "convert_exercise out d = (printed, Inr ex) \<Longrightarrow> list_all built (testCases ex)"
  by (auto simp: convert_exercise_def read_suite_def
      split: sum.splits prod.splits suite_file.splits option.splits
      dest: convert_suite_data_built)

end
